theory Spec2Isabelle
  imports Main "HOL-Library.Word"
begin

unbundle bit_operations_syntax

section \<open>The Bluetooth terminal of bletest.github.io\<close>

text \<open>
  A shallow embedding of the class \<open>BluetoothTerminal\<close> (src/unnamed/part_001).
  The object's fields are a record that every method takes and returns; the calls
  the object makes on the browser (\<open>characteristic.writeValue\<close>, \<open>this.receive\<close>)
  are recorded in two trace fields of that record. Console logging (\<open>_log\<close>) has no
  effect on the object and is left out.
\<close>

subsection \<open>JavaScript values\<close>

text \<open>
  A byte of a \<open>DataView\<close> or \<open>Uint8Array\<close> is an \<open>8 word\<close>; a JavaScript string is
  the list of its UTF-16 code units; a JavaScript number is an \<open>int\<close> (the class only
  computes with integers far below \<open>2 ^ 53\<close>). \<open>JObj s\<close> stands for any other
  truthy value whose conversion to a string gives \<open>s\<close>: an object, an array, a
  number with a fraction or beyond \<open>2 ^ 53\<close>. A conversion that throws is not
  modelled.
\<close>

type_synonym byte = "8 word"
type_synonym jschar = "16 word"
type_synonym jsstring = "jschar list"

datatype jsval =
    JUndefined
  | JNull
  | JBool bool
  | JNum int
  | JNaN
  | JStr jsstring
  | JObj jsstring

datatype error =
    RangeError
  | TypeError
  | SyntaxError
  | DataMustBeNotEmpty
  | NoConnectedDevice
  | DeviceDisconnected
  | TransportError nat

text \<open>A string literal of the source, written with Isabelle's 8-bit characters.\<close>

definition js :: "string \<Rightarrow> jsstring" where
  "js s = map (\<lambda>c. of_nat (of_char c)) s"

text \<open>\<open>ToInt32\<close>, and the operators \<open>&\<close>, \<open><<\<close>, \<open>>>\<close> that work on its result.\<close>

definition toInt32 :: "int \<Rightarrow> int" where
  "toInt32 x = (let m = x mod 2 ^ 32 in if m < 2 ^ 31 then m else m - 2 ^ 32)"

definition js_and :: "int \<Rightarrow> int \<Rightarrow> int" where
  "js_and a b = toInt32 a AND toInt32 b"

definition js_shl :: "int \<Rightarrow> nat \<Rightarrow> int" where
  "js_shl a n = toInt32 (push_bit (n mod 32) (toInt32 a))"

definition js_sar :: "int \<Rightarrow> nat \<Rightarrow> int" where
  "js_sar a n = drop_bit (n mod 32) (toInt32 a)"

text \<open>Storing a number into an element of a \<open>Uint8Array\<close> keeps it modulo 256.\<close>

definition toUint8 :: "int \<Rightarrow> byte" where
  "toUint8 x = word_of_int x"

text \<open>\<open>Number.prototype.toString(16)\<close> on the result of \<open>getUint8\<close>.\<close>

definition hexDigit :: "int \<Rightarrow> jschar" where
  "hexDigit d = (if d < 10 then word_of_int (48 + d) else word_of_int (87 + d))"

definition toString16 :: "int \<Rightarrow> jsstring" where
  "toString16 b = (if b < 16 then [hexDigit b] else [hexDigit (b div 16), hexDigit (b mod 16)])"

subsection \<open>The object\<close>

text \<open>
  \<open>writes\<close> lists the arguments of the calls of \<open>writeValue\<close> on the cached
  characteristic, oldest first: a control frame as its bytes, a text chunk as the string
  handed to \<open>TextEncoder\<close>. \<open>received\<close> lists the arguments of the calls of the
  \<open>receive\<close> callback. Devices and characteristics are handles.
\<close>

datatype written = WriteBytes "byte list" | WriteText jsstring

record terminal =
  receiveBuffer :: jsstring
  maxCharacteristicValueLength :: nat
  device :: "nat option"
  characteristic :: "nat option"
  deviceId :: jsval
  rfIdNumber :: jsval
  receiveSeparator :: jschar
  sendSeparator :: jschar
  listening :: "nat list"
  writes :: "written list"
  received :: "jsstring list"

text \<open>The constructor with its default separators.\<close>

definition initial :: terminal where
  "initial = \<lparr> receiveBuffer = [], maxCharacteristicValueLength = 20,
     device = None, characteristic = None, deviceId = JNull, rfIdNumber = JNull,
     receiveSeparator = 10, sendSeparator = 10, listening = [], writes = [],
     received = [] \<rparr>"

subsection \<open>Control frames\<close>

text \<open>The eleven bytes \<open>_sendToDevice\<close> puts into \<open>newData\<close>.\<close>

definition encodeFrame :: "int \<Rightarrow> int \<Rightarrow> byte list" where
  "encodeFrame command data =
     [ toUint8 command,
       toUint8 (js_sar (js_and data 0xFF000000) 24),
       toUint8 (js_sar (js_and data 0x00FF0000) 16),
       toUint8 (js_sar (js_and data 0x0000FF00) 8),
       toUint8 (js_and data 0xFF0000FF),
       0, 0, 0, 0, 254, 10 ]"

text \<open>
  \<open>_sendToDevice\<close>: with no cached characteristic the call of \<open>writeValue\<close> raises a
  TypeError, which the \<open>catch\<close> logs; nothing is written.
\<close>

definition sendToDevice :: "int \<Rightarrow> int \<Rightarrow> terminal \<Rightarrow> terminal" where
  "sendToDevice command data s =
     (case characteristic s of
        None \<Rightarrow> s
      | Some _ \<Rightarrow> s\<lparr> writes := writes s @ [WriteBytes (encodeFrame command data)] \<rparr>)"

definition checkRFIDExists :: bool where
  "checkRFIDExists = True"

text \<open>
  \<open>_connectionDataReceive\<close>, branch by branch. The branches of the commands 32 to 36
  and 51 only log, as does the fall through of an unknown command: they are the final
  \<open>else\<close>.
\<close>

definition connectionDataReceive :: "int \<Rightarrow> jsval \<Rightarrow> int \<Rightarrow> terminal \<Rightarrow> terminal" where
  "connectionDataReceive command data handsakeCommand s =
     (if handsakeCommand \<noteq> 253 then s
      else if command = 21 then
        (let s1 = s\<lparr> deviceId := data \<rparr>; deviceFound = True
         in if deviceFound then sendToDevice command 1 s1 else sendToDevice command 0 s1)
      else if command = 31 then
        (let s1 = s\<lparr> rfIdNumber := data \<rparr>
         in if \<not> checkRFIDExists then sendToDevice command 0 s1 else s1)
      else if command = 41 then sendToDevice command 1 s
      else if command = 42 then sendToDevice command (2 * 1000) s
      else if command = 43 then sendToDevice command (1 * 100) s
      else if command = 44 then sendToDevice command (10 * 100) s
      else s)"

text \<open>\<open>DataView.getUint8\<close> raises a RangeError outside the view.\<close>

definition getUint8 :: "byte list \<Rightarrow> nat \<Rightarrow> error + int" where
  "getUint8 v i = (if i < length v then Inr (uint (v ! i)) else Inl RangeError)"

definition bindE :: "error + 'a \<Rightarrow> ('a \<Rightarrow> error + 'b) \<Rightarrow> error + 'b" where
  "bindE m f = (case m of Inl e \<Rightarrow> Inl e | Inr a \<Rightarrow> f a)"

text \<open>
  \<open>_handleCharacteristicValueChanged\<close> on the bytes of \<open>event.target.value\<close>, in two
  parts. \<open>decodeFrame\<close> is the handler up to its last statement: the ten reads in the
  source's order and the value of \<open>total\<close>; it gives the three arguments of the call
  that ends the handler. For command 21 with marker 253 \<open>total\<close> is a string, the
  hexadecimal digits of the eight bytes after the command; otherwise it is a number,
  built with \<open><<\<close> on 32-bit signed integers.
\<close>

definition decodeFrame :: "byte list \<Rightarrow> error + (int \<times> jsval \<times> int)" where
  "decodeFrame v =
     bindE (getUint8 v 0) (\<lambda>command.
     bindE (getUint8 v 9) (\<lambda>handsakeCommand.
     bindE (getUint8 v 1) (\<lambda>t1.
     bindE (getUint8 v 2) (\<lambda>t2.
     bindE (getUint8 v 3) (\<lambda>t3.
     bindE (getUint8 v 4) (\<lambda>t4.
     bindE (getUint8 v 5) (\<lambda>t5.
     bindE (getUint8 v 6) (\<lambda>t6.
     bindE (getUint8 v 7) (\<lambda>t7.
     bindE (getUint8 v 8) (\<lambda>t8.
       (let total =
          (if command = 21 \<and> handsakeCommand = 253 then
             JStr (toString16 t1 @ toString16 t2 @ toString16 t3 @ toString16 t4 @
                   toString16 t5 @ toString16 t6 @ toString16 t7 @ toString16 t8)
           else JNum (js_shl t1 24 + js_shl t2 16 + js_shl t3 8 + t4))
        in Inr (command, total, handsakeCommand))))))))))))"

text \<open>An exception leaves the object as it was: the reads come before any assignment.\<close>

definition handleCharacteristicValueChanged :: "byte list \<Rightarrow> terminal \<Rightarrow> error + terminal" where
  "handleCharacteristicValueChanged v s =
     bindE (decodeFrame v) (\<lambda>(command, total, handsakeCommand).
       Inr (connectionDataReceive command total handsakeCommand s))"

subsection \<open>Splitting a string into chunks\<close>

text \<open>
  \<open>_splitByLength\<close> is \<open>string.match(new RegExp('(.|[\r\n]){1,' + length + '}', 'g'))\<close>.
  The expression has neither the \<open>s\<close> nor the \<open>u\<close> flag: it works on code units, and
  the dot matches every code unit but the four line terminators U+000A, U+000D, U+2028
  and U+2029; the alternative \<open>[\r\n]\<close> adds the first two.
\<close>

definition dotMatches :: "jschar \<Rightarrow> bool" where
  "dotMatches c = (c \<noteq> 0x000A \<and> c \<noteq> 0x000D \<and> c \<noteq> 0x2028 \<and> c \<noteq> 0x2029)"

definition unitMatches :: "jschar \<Rightarrow> bool" where
  "unitMatches c = (dotMatches c \<or> c = 0x000D \<or> c = 0x000A)"

text \<open>
  All matches of the global expression, left to right. At each position the greedy
  quantifier \<open>{1,n}\<close> takes as many matching code units as there are, up to \<open>n\<close>;
  where not even one matches, the search moves on by one code unit.
\<close>

function matchAll :: "nat \<Rightarrow> jsstring \<Rightarrow> jsstring list" where
  "matchAll n s =
     (if n = 0 \<or> s = [] then []
      else if take n (takeWhile unitMatches s) = [] then matchAll n (tl s)
      else take n (takeWhile unitMatches s)
             # matchAll n (drop (length (take n (takeWhile unitMatches s))) s))"
  by pat_completeness auto
termination
  by (relation "measure (\<lambda>(n, s). length s)") (auto simp: neq_Nil_conv)

declare matchAll.simps [simp del]

text \<open>
  \<open>match\<close> gives \<open>null\<close> when nothing matches. The quantifier \<open>{1,0}\<close> is a
  SyntaxError of the \<open>RegExp\<close> constructor.
\<close>

definition splitByLength :: "jsstring \<Rightarrow> nat \<Rightarrow> error + jsstring list option" where
  "splitByLength string len =
     (if len = 0 then Inl SyntaxError
      else case matchAll len string of [] \<Rightarrow> Inr None | m # ms \<Rightarrow> Inr (Some (m # ms)))"

subsection \<open>Sending text\<close>

text \<open>A promise is given by the state it settles in; a call returns or throws.\<close>

datatype 'a promise = Fulfilled 'a | Rejected error

datatype 'a completion = Return 'a | Throw error

text \<open>
  Truthiness and \<open>String(x)\<close>. \<open>JNum n\<close> stands for the number \<open>n\<close> where JavaScript
  has it exactly and prints it in full, that is for \<open>n\<close> below \<open>2 ^ 53\<close> in absolute
  value: there \<open>String\<close> gives the decimal numeral. A larger number, printed with
  rounded digits or an exponent, is a \<open>JObj\<close> with that text.
\<close>

fun truthy :: "jsval \<Rightarrow> bool" where
  "truthy JUndefined = False"
| "truthy JNull = False"
| "truthy (JBool b) = b"
| "truthy (JNum n) = (n \<noteq> 0)"
| "truthy JNaN = False"
| "truthy (JStr s) = (s \<noteq> [])"
| "truthy (JObj s) = True"

function decimal :: "nat \<Rightarrow> jsstring" where
  "decimal n = (if n < 10 then [of_nat (48 + n)] else decimal (n div 10) @ [of_nat (48 + n mod 10)])"
  by pat_completeness auto
termination
  by (relation "measure id") auto

declare decimal.simps [simp del]

fun jsString :: "jsval \<Rightarrow> jsstring" where
  "jsString JUndefined = js ''undefined''"
| "jsString JNull = js ''null''"
| "jsString (JBool b) = (if b then js ''true'' else js ''false'')"
| "jsString (JNum n) = (if n < 0 then 45 # decimal (nat (- n)) else decimal (nat n))"
| "jsString JNaN = js ''NaN''"
| "jsString (JStr s) = s"
| "jsString (JObj s) = s"

text \<open>
  The chain of promises that \<open>send\<close> builds over the chunks after the first one. The
  callback for chunk \<open>i\<close> runs only when the promise before it is fulfilled. Two
  parameters stand for what happens outside this class while the chain is pending:
  \<open>present i\<close> tells whether \<open>this._characteristic\<close> is still set when the callback for
  chunk \<open>i\<close> runs, and \<open>outcome i\<close> is how the write of chunk \<open>i\<close> settles (\<open>None\<close>:
  fulfilled, \<open>Some e\<close>: rejected with the transport's error \<open>e\<close>). The result is the
  final promise and the chunks handed to \<open>writeValue\<close>, in the order of the calls.
  With the characteristic gone the callback rejects; the write that follows the
  \<open>reject\<close> raises a TypeError inside the executor and writes nothing.
\<close>

fun chainWrites :: "(nat \<Rightarrow> bool) \<Rightarrow> (nat \<Rightarrow> nat option) \<Rightarrow> nat \<Rightarrow> jsstring list
    \<Rightarrow> unit promise \<times> jsstring list" where
  "chainWrites present outcome i [] = (Fulfilled (), [])"
| "chainWrites present outcome i (c # cs) =
     (if \<not> present i then (Rejected DeviceDisconnected, [])
      else case outcome i of
        Some e \<Rightarrow> (Rejected (TransportError e), [c])
      | None \<Rightarrow> (let (p, w) = chainWrites present outcome (Suc i) cs in (p, c # w)))"

text \<open>The first chunk is written during the call of \<open>send\<close>, the others by the chain.\<close>

fun writeChunks :: "(nat \<Rightarrow> bool) \<Rightarrow> (nat \<Rightarrow> nat option) \<Rightarrow> jsstring list
    \<Rightarrow> unit promise \<times> jsstring list" where
  "writeChunks present outcome [] = (Fulfilled (), [])"
| "writeChunks present outcome (c # cs) =
     (case outcome 0 of
        Some e \<Rightarrow> (Rejected (TransportError e), [c])
      | None \<Rightarrow> (let (p, w) = chainWrites present outcome 1 cs in (p, c # w)))"

text \<open>
  \<open>send\<close>. Indexing the \<open>null\<close> that \<open>_splitByLength\<close> may return raises a TypeError.
\<close>

definition send :: "(nat \<Rightarrow> bool) \<Rightarrow> (nat \<Rightarrow> nat option) \<Rightarrow> jsval \<Rightarrow> terminal
    \<Rightarrow> unit promise completion \<times> terminal" where
  "send present outcome x s =
     (let data = jsString (if truthy x then x else JStr [])
      in if data = [] then (Return (Rejected DataMustBeNotEmpty), s)
         else
           (case splitByLength (data @ [sendSeparator s]) (maxCharacteristicValueLength s) of
              Inl e \<Rightarrow> (Throw e, s)
            | Inr chunks \<Rightarrow>
                (case characteristic s of
                   None \<Rightarrow> (Return (Rejected NoConnectedDevice), s)
                 | Some _ \<Rightarrow>
                     (case chunks of
                        None \<Rightarrow> (Throw TypeError, s)
                      | Some cs \<Rightarrow>
                          (let (p, w) = writeChunks present outcome cs
                           in (Return p, s\<lparr> writes := writes s @ map WriteText w \<rparr>))))))"

subsection \<open>Connecting\<close>

text \<open>
  What the browser answers. \<open>navigator.bluetooth.requestDevice\<close> either throws (there
  is no \<open>navigator.bluetooth\<close>, say) or returns a promise; the other calls return
  promises. Devices, servers, services and characteristics are handles.
\<close>

record bluetooth =
  bt_requestDevice :: "nat promise completion"
  gatt_connected :: "nat \<Rightarrow> bool"
  gatt_connect :: "nat \<Rightarrow> nat promise"
  bt_getPrimaryServices :: "nat \<Rightarrow> nat list promise"
  bt_getCharacteristic :: "nat \<Rightarrow> nat promise"
  bt_startNotifications :: "nat \<Rightarrow> unit promise"

text \<open>
  \<open>_requestBluetoothDevice\<close>: the \<open>try\<close> encloses the call only, so its \<open>catch\<close> sees
  what the call throws, logs it, and the method returns \<open>undefined\<close> (\<open>None\<close>). A
  rejection of the returned promise passes through.
\<close>

definition requestBluetoothDevice :: "bluetooth \<Rightarrow> terminal \<Rightarrow> nat promise option \<times> terminal" where
  "requestBluetoothDevice b s =
     (case bt_requestDevice b of
        Throw ex \<Rightarrow> (None, s)
      | Return (Rejected e) \<Rightarrow> (Some (Rejected e), s)
      | Return (Fulfilled d) \<Rightarrow> (Some (Fulfilled d), s\<lparr> device := Some d \<rparr>))"

text \<open>
  \<open>_connectDeviceAndCacheCharacteristic\<close>. The \<open>forEach\<close> keeps the promise of the
  last service; with no service \<open>ct\<close> stays \<open>undefined\<close> and is cached as such.
\<close>

definition connectDeviceAndCacheCharacteristic ::
    "bluetooth \<Rightarrow> nat \<Rightarrow> terminal \<Rightarrow> nat option promise \<times> terminal" where
  "connectDeviceAndCacheCharacteristic b d s =
     (if gatt_connected b d \<and> characteristic s \<noteq> None then (Fulfilled (characteristic s), s)
      else case gatt_connect b d of
        Rejected e \<Rightarrow> (Rejected e, s)
      | Fulfilled server \<Rightarrow>
          (case bt_getPrimaryServices b server of
             Rejected e \<Rightarrow> (Rejected e, s)
           | Fulfilled services \<Rightarrow>
               (if services = [] then (Fulfilled None, s\<lparr> characteristic := None \<rparr>)
                else case bt_getCharacteristic b (last services) of
                  Rejected e \<Rightarrow> (Rejected e, s)
                | Fulfilled c \<Rightarrow> (Fulfilled (Some c), s\<lparr> characteristic := Some c \<rparr>))))"

text \<open>\<open>_startNotifications\<close>; on \<open>undefined\<close> the call raises a TypeError inside \<open>then\<close>.\<close>

definition startNotifications :: "bluetooth \<Rightarrow> nat option \<Rightarrow> terminal \<Rightarrow> unit promise \<times> terminal" where
  "startNotifications b c s =
     (case c of
        None \<Rightarrow> (Rejected TypeError, s)
      | Some ch \<Rightarrow>
          (case bt_startNotifications b ch of
             Rejected e \<Rightarrow> (Rejected e, s)
           | Fulfilled _ \<Rightarrow> (Fulfilled (), s\<lparr> listening := listening s @ [ch] \<rparr>)))"

text \<open>
  \<open>_connectToDevice\<close>: \<open>.then\<close> on the \<open>undefined\<close> that \<open>_requestBluetoothDevice\<close> may
  return raises a TypeError outside every promise, so the method throws. The final
  \<open>catch\<close> logs a rejection and rejects with the same error.
\<close>

definition connectToDevice :: "bluetooth \<Rightarrow> nat option \<Rightarrow> terminal
    \<Rightarrow> unit promise completion \<times> terminal" where
  "connectToDevice b dev s =
     (case (case dev of Some d \<Rightarrow> (Some (Fulfilled d), s) | None \<Rightarrow> requestBluetoothDevice b s) of
        (None, s1) \<Rightarrow> (Throw TypeError, s1)
      | (Some (Rejected e), s1) \<Rightarrow> (Return (Rejected e), s1)
      | (Some (Fulfilled d), s1) \<Rightarrow>
          (case connectDeviceAndCacheCharacteristic b d s1 of
             (Rejected e, s2) \<Rightarrow> (Return (Rejected e), s2)
           | (Fulfilled c, s2) \<Rightarrow>
               (case startNotifications b c s2 of
                  (Rejected e, s3) \<Rightarrow> (Return (Rejected e), s3)
                | (Fulfilled u, s3) \<Rightarrow> (Return (Fulfilled u), s3))))"

definition connect :: "bluetooth \<Rightarrow> terminal \<Rightarrow> unit promise completion \<times> terminal" where
  "connect b s = connectToDevice b (device s) s"

subsection \<open>Fixtures\<close>

text \<open>A terminal that has cached device 0 and characteristic 0 and listens on it.\<close>

definition connected :: terminal where
  "connected = initial\<lparr> device := Some 0, characteristic := Some 0, listening := [0] \<rparr>"

text \<open>The same terminal with chunks of at most two code units.\<close>

definition narrow :: terminal where
  "narrow = connected\<lparr> maxCharacteristicValueLength := 2 \<rparr>"

text \<open>A browser without \<open>navigator.bluetooth\<close>: the request throws a TypeError.\<close>

definition noBluetooth :: bluetooth where
  "noBluetooth = \<lparr> bt_requestDevice = Throw TypeError, gatt_connected = (\<lambda>d. False),
     gatt_connect = (\<lambda>d. Rejected (TransportError 0)),
     bt_getPrimaryServices = (\<lambda>v. Rejected (TransportError 0)),
     bt_getCharacteristic = (\<lambda>v. Rejected (TransportError 0)),
     bt_startNotifications = (\<lambda>c. Rejected (TransportError 0)) \<rparr>"

text \<open>A browser where every step succeeds: device 7, one service, characteristic 3.\<close>

definition goodBluetooth :: bluetooth where
  "goodBluetooth = \<lparr> bt_requestDevice = Return (Fulfilled 7), gatt_connected = (\<lambda>d. False),
     gatt_connect = (\<lambda>d. Fulfilled 1),
     bt_getPrimaryServices = (\<lambda>v. Fulfilled [2]),
     bt_getCharacteristic = (\<lambda>v. Fulfilled 3),
     bt_startNotifications = (\<lambda>c. Fulfilled ()) \<rparr>"

section \<open>Properties\<close>

subsection \<open>Helper facts\<close>

lemmas frame_eval = encodeFrame_def toUint8_def js_sar_def js_and_def toInt32_def

lemma sendToDevice_cached:
  "characteristic s \<noteq> None \<Longrightarrow>
     sendToDevice command data s =
       s\<lparr> writes := writes s @ [WriteBytes (encodeFrame command data)] \<rparr>"
  by (auto simp: sendToDevice_def)

lemma sendToDevice_not_cached:
  "characteristic s = None \<Longrightarrow> sendToDevice command data s = s"
  by (simp add: sendToDevice_def)

lemma decodeFrame_short: "length v < 10 \<Longrightarrow> decodeFrame v = Inl RangeError"
  by (simp add: decodeFrame_def bindE_def getUint8_def)

lemma decodeFrame_long:
  "10 \<le> length v \<Longrightarrow> decodeFrame v =
     Inr (uint (v ! 0),
          (if uint (v ! 0) = 21 \<and> uint (v ! 9) = 253 then
             JStr (toString16 (uint (v ! 1)) @ toString16 (uint (v ! 2)) @
                   toString16 (uint (v ! 3)) @ toString16 (uint (v ! 4)) @
                   toString16 (uint (v ! 5)) @ toString16 (uint (v ! 6)) @
                   toString16 (uint (v ! 7)) @ toString16 (uint (v ! 8)))
           else JNum (js_shl (uint (v ! 1)) 24 + js_shl (uint (v ! 2)) 16
                      + js_shl (uint (v ! 3)) 8 + uint (v ! 4))),
          uint (v ! 9))"
  by (auto simp: decodeFrame_def bindE_def getUint8_def)

lemma uint_byte_eq:
  "(uint (b :: byte) = 253) = (b = 253)"
  "(uint (b :: byte) = 31) = (b = 31)"
  "(uint (b :: byte) = 21) = (b = 21)"
  by (auto simp: word_uint_eq_iff)

text \<open>The chain of writes: what is written is a prefix of the chunks, in their order.\<close>

lemma chainWrites_prefix:
  "snd (chainWrites pr oc i cs) = take (length (snd (chainWrites pr oc i cs))) cs"
  by (induction cs arbitrary: i) (auto simp: split_def Let_def split: option.splits)

lemma chainWrites_length: "length (snd (chainWrites pr oc i cs)) \<le> length cs"
  by (induction cs arbitrary: i) (auto simp: split_def Let_def split: option.splits)

lemma chainWrites_order:
  "Suc j < length (snd (chainWrites pr oc i cs)) \<Longrightarrow> oc (i + j) = None \<and> pr (i + Suc j)"
proof (induction cs arbitrary: i j)
  case Nil
  then show ?case by simp
next
  case (Cons c cs)
  show ?case
  proof (cases "pr i \<and> oc i = None")
    case False
    with Cons.prems show ?thesis by (auto split: option.splits if_splits)
  next
    case True
    then have w: "snd (chainWrites pr oc i (c # cs)) = c # snd (chainWrites pr oc (Suc i) cs)"
      by (simp add: split_def Let_def)
    show ?thesis
    proof (cases j)
      case 0
      with Cons.prems w have "0 < length (snd (chainWrites pr oc (Suc i) cs))" by simp
      then have "pr (Suc i)" by (cases cs) (auto split: if_splits)
      with True 0 show ?thesis by simp
    next
      case (Suc j')
      with Cons.prems w have "Suc j' < length (snd (chainWrites pr oc (Suc i) cs))" by simp
      from Cons.IH [OF this] Suc show ?thesis by simp
    qed
  qed
qed

lemma chainWrites_disconnected:
  "j < length cs \<Longrightarrow> \<not> pr (i + j) \<Longrightarrow> (\<forall>m<j. pr (i + m) \<and> oc (i + m) = None) \<Longrightarrow>
     chainWrites pr oc i cs = (Rejected DeviceDisconnected, take j cs)"
proof (induction cs arbitrary: i j)
  case Nil
  then show ?case by simp
next
  case (Cons c cs)
  show ?case
  proof (cases j)
    case 0
    with Cons.prems show ?thesis by simp
  next
    case (Suc j')
    with Cons.prems have here: "pr i" "oc i = None"
      by (metis add.right_neutral zero_less_Suc)+
    have "chainWrites pr oc (Suc i) cs = (Rejected DeviceDisconnected, take j' cs)"
    proof (rule Cons.IH)
      show "j' < length cs" using Cons.prems Suc by simp
      show "\<not> pr (Suc i + j')" using Cons.prems Suc by simp
      show "\<forall>m<j'. pr (Suc i + m) \<and> oc (Suc i + m) = None"
        using Cons.prems(3) Suc by (metis Suc_less_eq add_Suc_shift)
    qed
    with here Suc show ?thesis by simp
  qed
qed

lemma chainWrites_not_validation:
  "fst (chainWrites pr oc i cs) \<noteq> Rejected DataMustBeNotEmpty"
  by (induction cs arbitrary: i) (auto simp: split_def Let_def split: option.splits)

lemma writeChunks_not_validation:
  "fst (writeChunks pr oc cs) \<noteq> Rejected DataMustBeNotEmpty"
  using chainWrites_not_validation [of pr oc 1 "tl cs"]
  by (cases cs) (auto simp: split_def Let_def split: option.splits)

lemma writeChunks_prefix:
  "snd (writeChunks pr oc cs) = take (length (snd (writeChunks pr oc cs))) cs"
  using chainWrites_prefix [of pr oc 1 "tl cs"]
  by (cases cs) (auto simp: split_def Let_def split: option.splits)

lemma writeChunks_length: "length (snd (writeChunks pr oc cs)) \<le> length cs"
  using chainWrites_length [of pr oc 1 "tl cs"]
  by (cases cs) (auto simp: split_def Let_def split: option.splits)

lemma writeChunks_order:
  assumes "Suc j < length (snd (writeChunks pr oc cs))"
  shows "oc j = None \<and> pr (Suc j)"
proof (cases cs)
  case Nil
  with assms show ?thesis by simp
next
  case (Cons c cs')
  show ?thesis
  proof (cases "oc 0")
    case (Some e)
    with assms Cons show ?thesis by simp
  next
    case None
    with Cons have w: "snd (writeChunks pr oc cs) = c # snd (chainWrites pr oc 1 cs')"
      by (simp add: split_def Let_def)
    show ?thesis
    proof (cases j)
      case 0
      with assms w have "0 < length (snd (chainWrites pr oc 1 cs'))" by simp
      then have "pr 1" by (cases cs') (auto split: if_splits)
      with None 0 show ?thesis by simp
    next
      case (Suc j')
      with assms w have "Suc j' < length (snd (chainWrites pr oc 1 cs'))" by simp
      from chainWrites_order [OF this] Suc show ?thesis by simp
    qed
  qed
qed

lemma writeChunks_disconnected:
  assumes "0 < j" "j < length cs" "\<not> pr j" "\<forall>m<j. oc m = None" "\<forall>m. 0 < m \<and> m < j \<longrightarrow> pr m"
  shows "writeChunks pr oc cs = (Rejected DeviceDisconnected, take j cs)"
proof -
  from assms obtain c cs' where cs: "cs = c # cs'" by (cases cs) auto
  from assms obtain j' where j: "j = Suc j'" by (cases j) auto
  have "chainWrites pr oc 1 cs' = (Rejected DeviceDisconnected, take j' cs')"
  proof (rule chainWrites_disconnected)
    show "j' < length cs'" using assms cs j by simp
    show "\<not> pr (1 + j')" using assms j by simp
    show "\<forall>m<j'. pr (1 + m) \<and> oc (1 + m) = None" using assms(4,5) j by simp
  qed
  moreover have "oc 0 = None" using assms by simp
  ultimately show ?thesis using cs j by simp
qed


lemma chainWrites_success:
  "(\<forall>m<length cs. pr (i + m) \<and> oc (i + m) = None) \<Longrightarrow>
     chainWrites pr oc i cs = (Fulfilled (), cs)"
proof (induction cs arbitrary: i)
  case Nil
  then show ?case by simp
next
  case (Cons c cs)
  from Cons.prems have here: "pr i" "oc i = None"
    by (metis add.right_neutral length_Cons zero_less_Suc)+
  have "chainWrites pr oc (Suc i) cs = (Fulfilled (), cs)"
  proof (rule Cons.IH, intro allI impI)
    fix m assume "m < length cs"
    then have "Suc m < length (c # cs)" by simp
    with Cons.prems have "pr (i + Suc m) \<and> oc (i + Suc m) = None" by blast
    then show "pr (Suc i + m) \<and> oc (Suc i + m) = None" by simp
  qed
  with here show ?case by simp
qed

lemma chainWrites_failed:
  "j < length cs \<Longrightarrow> pr (i + j) \<Longrightarrow> oc (i + j) = Some e \<Longrightarrow>
   (\<forall>m<j. pr (i + m) \<and> oc (i + m) = None) \<Longrightarrow>
     chainWrites pr oc i cs = (Rejected (TransportError e), take (Suc j) cs)"
proof (induction cs arbitrary: i j)
  case Nil
  then show ?case by simp
next
  case (Cons c cs)
  show ?case
  proof (cases j)
    case 0
    with Cons.prems show ?thesis by simp
  next
    case (Suc j')
    with Cons.prems have here: "pr i" "oc i = None"
      by (metis add.right_neutral zero_less_Suc)+
    have "chainWrites pr oc (Suc i) cs = (Rejected (TransportError e), take (Suc j') cs)"
    proof (rule Cons.IH)
      show "j' < length cs" using Cons.prems Suc by simp
      show "pr (Suc i + j')" using Cons.prems Suc by simp
      show "oc (Suc i + j') = Some e" using Cons.prems Suc by simp
      show "\<forall>m<j'. pr (Suc i + m) \<and> oc (Suc i + m) = None"
        using Cons.prems(4) Suc by (metis Suc_less_eq add_Suc_shift)
    qed
    with here Suc show ?thesis by simp
  qed
qed

lemma chainWrites_cases:
  "(fst (chainWrites pr oc i cs) = Fulfilled () \<and> snd (chainWrites pr oc i cs) = cs) \<or>
   (fst (chainWrites pr oc i cs) = Rejected DeviceDisconnected \<and>
      length (snd (chainWrites pr oc i cs)) < length cs) \<or>
   (\<exists>e n. fst (chainWrites pr oc i cs) = Rejected (TransportError e) \<and>
      length (snd (chainWrites pr oc i cs)) = Suc n \<and> oc (i + n) = Some e)"
proof (induction cs arbitrary: i)
  case Nil
  then show ?case by simp
next
  case (Cons c cs)
  show ?case
  proof (cases "pr i")
    case False
    then show ?thesis by simp
  next
    case True
    note pr = this
    show ?thesis
    proof (cases "oc i")
      case (Some e)
      with pr show ?thesis by simp
    next
      case None
      with pr have r: "chainWrites pr oc i (c # cs) =
          (fst (chainWrites pr oc (Suc i) cs), c # snd (chainWrites pr oc (Suc i) cs))"
        by (simp add: split_def Let_def)
      from Cons.IH [of "Suc i"] show ?thesis
        unfolding r by (elim disjE exE conjE) (simp, simp, force)
    qed
  qed
qed

lemma writeChunks_success:
  assumes "\<forall>m<length cs. oc m = None \<and> (0 < m \<longrightarrow> pr m)"
  shows "writeChunks pr oc cs = (Fulfilled (), cs)"
proof (cases cs)
  case Nil
  then show ?thesis by simp
next
  case (Cons c cs')
  with assms have first: "oc 0 = None" by auto
  have "chainWrites pr oc 1 cs' = (Fulfilled (), cs')"
  proof (rule chainWrites_success, intro allI impI)
    fix m assume "m < length cs'"
    with Cons have "Suc m < length cs" by simp
    with assms have "oc (Suc m) = None \<and> pr (Suc m)" by blast
    then show "pr (1 + m) \<and> oc (1 + m) = None" by simp
  qed
  with first Cons show ?thesis by simp
qed

lemma writeChunks_failed:
  assumes "j < length cs" "oc j = Some e" "\<forall>m<j. oc m = None" "\<forall>m. 0 < m \<and> m \<le> j \<longrightarrow> pr m"
  shows "writeChunks pr oc cs = (Rejected (TransportError e), take (Suc j) cs)"
proof -
  from assms obtain c cs' where cs: "cs = c # cs'" by (cases cs) auto
  show ?thesis
  proof (cases j)
    case 0
    with assms cs show ?thesis by simp
  next
    case (Suc j')
    have "chainWrites pr oc 1 cs' = (Rejected (TransportError e), take (Suc j') cs')"
    proof (rule chainWrites_failed)
      show "j' < length cs'" using assms cs Suc by simp
      show "pr (1 + j')" using assms Suc by simp
      show "oc (1 + j') = Some e" using assms Suc by simp
      show "\<forall>m<j'. pr (1 + m) \<and> oc (1 + m) = None" using assms(3,4) Suc by simp
    qed
    moreover have "oc 0 = None" using assms Suc by simp
    ultimately show ?thesis using cs Suc by simp
  qed
qed

lemma writeChunks_first: "cs \<noteq> [] \<Longrightarrow> snd (writeChunks pr oc cs) \<noteq> []"
  by (cases cs) (auto simp: split_def Let_def split: option.splits)

lemma writeChunks_cases:
  "(fst (writeChunks pr oc cs) = Fulfilled () \<and> snd (writeChunks pr oc cs) = cs) \<or>
   (fst (writeChunks pr oc cs) = Rejected DeviceDisconnected \<and>
      length (snd (writeChunks pr oc cs)) < length cs) \<or>
   (\<exists>e n. fst (writeChunks pr oc cs) = Rejected (TransportError e) \<and>
      length (snd (writeChunks pr oc cs)) = Suc n \<and> oc n = Some e)"
proof (cases cs)
  case Nil
  then show ?thesis by simp
next
  case (Cons c cs')
  show ?thesis
  proof (cases "oc 0")
    case (Some e)
    with Cons show ?thesis by simp
  next
    case None
    then have r: "writeChunks pr oc (c # cs') =
        (fst (chainWrites pr oc 1 cs'), c # snd (chainWrites pr oc 1 cs'))"
      by (simp add: split_def Let_def)
    from chainWrites_cases [of pr oc 1 cs'] show ?thesis
      unfolding Cons r by (elim disjE exE conjE) (simp, simp, force)
  qed
qed

lemma writeChunks_gone:
  assumes "0 < j" "j < length cs" "\<not> pr j"
  shows "length (snd (writeChunks pr oc cs)) \<le> j \<and>
         (fst (writeChunks pr oc cs) = Rejected DeviceDisconnected \<or>
          (\<exists>i<j. \<exists>e. oc i = Some e \<and> fst (writeChunks pr oc cs) = Rejected (TransportError e)))"
proof -
  let ?k = "length (snd (writeChunks pr oc cs))"
  have k: "?k \<le> j"
  proof (rule ccontr)
    assume "\<not> ?k \<le> j"
    with assms(1) obtain j' where "j = Suc j'" "Suc j' < ?k"
      by (cases j) auto
    with writeChunks_order [of j' pr oc cs] assms(3) show False by simp
  qed
  from writeChunks_cases [of pr oc cs] show ?thesis
  proof (elim disjE exE conjE)
    assume "snd (writeChunks pr oc cs) = cs"
    with k assms(2) show ?thesis by simp
  next
    assume "fst (writeChunks pr oc cs) = Rejected DeviceDisconnected"
    with k show ?thesis by simp
  next
    fix e n
    assume e: "fst (writeChunks pr oc cs) = Rejected (TransportError e)" "?k = Suc n"
      "oc n = Some e"
    with k have "n < j" by simp
    with e k show ?thesis by blast
  qed
qed

lemma splitByLength_nonempty: "splitByLength str n = Inr (Some cs) \<Longrightarrow> cs \<noteq> []"
  by (auto simp: splitByLength_def split: if_splits list.splits)

lemma send_cached:
  assumes "characteristic s \<noteq> None"
    and "jsString (if truthy x then x else JStr []) \<noteq> []"
    and "splitByLength (jsString (if truthy x then x else JStr []) @ [sendSeparator s])
           (maxCharacteristicValueLength s) = Inr (Some cs)"
  shows "send pr oc x s =
           (Return (fst (writeChunks pr oc cs)),
            s\<lparr> writes := writes s @ map WriteText (snd (writeChunks pr oc cs)) \<rparr>)"
  using assms by (auto simp: send_def Let_def split_def)

lemma narrow_split:
  "splitByLength (jsString (if truthy (JStr (js ''abcd'')) then JStr (js ''abcd'') else JStr [])
       @ [sendSeparator narrow]) (maxCharacteristicValueLength narrow)
     = Inr (Some [js ''ab'', js ''cd'', [10]])"
  by (simp add: narrow_def connected_def initial_def js_def splitByLength_def matchAll.simps
      unitMatches_def dotMatches_def)

lemma narrow_single:
  "splitByLength (jsString (if truthy (JStr (js ''a'')) then JStr (js ''a'') else JStr [])
       @ [sendSeparator narrow]) (maxCharacteristicValueLength narrow)
     = Inr (Some [[97, 10]])"
  by (simp add: narrow_def connected_def initial_def js_def splitByLength_def matchAll.simps
      unitMatches_def dotMatches_def)

subsection \<open>The handshake frame\<close>

text \<open>
  C1, as stated, fails: fed the bytes \<open>[21,0,0,0,1,0,0,0,0,253,10]\<close>, the handler does
  write back the frame \<open>[21,0,0,0,1,0,0,0,0,254,10]\<close>, but what it stores in
  \<open>_deviceId\<close> is not the number 1: it is the string \<open>00010000\<close>.
\<close>

theorem handshake_frame_id_counterexample:
  "handleCharacteristicValueChanged [21,0,0,0,1,0,0,0,0,253,10] connected \<noteq>
     Inr (connected\<lparr> deviceId := JNum 1,
                      writes := [WriteBytes [21,0,0,0,1,0,0,0,0,254,10]] \<rparr>) \<and>
   handleCharacteristicValueChanged [21,0,0,0,1,0,0,0,0,253,10] connected =
     Inr (connected\<lparr> deviceId := JStr (js ''00010000''),
                      writes := [WriteBytes [21,0,0,0,1,0,0,0,0,254,10]] \<rparr>)"
  by (simp add: handleCharacteristicValueChanged_def decodeFrame_def bindE_def getUint8_def
      connectionDataReceive_def sendToDevice_def connected_def initial_def toString16_def
      hexDigit_def js_def frame_eval)

text \<open>
  C1, amended: in a terminal with a cached characteristic, the bytes
  \<open>[21,0,0,0,1,0,0,0,0,253,10]\<close> make the handler store as \<open>deviceId\<close> the string
  \<open>00010000\<close> (one hexadecimal numeral, without padding, for each of the eight bytes
  after the command) and write exactly one frame: command 21, big-endian payload 1,
  marker 254, terminator 10. Nothing else of the object changes.
\<close>

theorem handshake_frame_stores_hex_id:
  "characteristic s \<noteq> None \<Longrightarrow>
   handleCharacteristicValueChanged [21,0,0,0,1,0,0,0,0,253,10] s =
     Inr (s\<lparr> deviceId := JStr (js ''00010000''),
             writes := writes s @ [WriteBytes [21,0,0,0,1,0,0,0,0,254,10]] \<rparr>)"
  by (simp add: handleCharacteristicValueChanged_def decodeFrame_def bindE_def getUint8_def
      connectionDataReceive_def sendToDevice_cached toString16_def hexDigit_def js_def
      frame_eval)

theorem handshake_frame_stores_hex_id_witness:
  "characteristic connected \<noteq> None \<and>
   handleCharacteristicValueChanged [21,0,0,0,1,0,0,0,0,253,10] connected =
     Inr (connected\<lparr> deviceId := JStr [48,48,48,49,48,48,48,48],
                      writes := [WriteBytes [21,0,0,0,1,0,0,0,0,254,10]] \<rparr>)"
proof -
  have c: "characteristic connected \<noteq> None"
    by (simp add: connected_def)
  have w: "writes connected = []"
    by (simp add: connected_def initial_def)
  show ?thesis
    using c handshake_frame_stores_hex_id [OF c] by (simp add: w js_def)
qed

subsection \<open>Routing of notifications\<close>

text \<open>
  C2, as stated, fails. The handler has no test of the length and no text path: the
  three bytes of \<open>hi\<close> and a line feed raise a RangeError at the read of byte 9, and
  no message is delivered; a notification of ten bytes, not eleven, is dispatched as a
  control frame and answered.
\<close>

theorem notification_routing_counterexample:
  "handleCharacteristicValueChanged [0x68, 0x69, 0x0A] connected = Inl RangeError \<and>
   handleCharacteristicValueChanged [41,0,0,0,0,0,0,0,0,253] connected =
     Inr (connected\<lparr> writes := [WriteBytes [41,0,0,0,1,0,0,0,0,254,10]] \<rparr>)"
  by (simp add: handleCharacteristicValueChanged_def decodeFrame_def bindE_def getUint8_def
      connectionDataReceive_def sendToDevice_def connected_def initial_def js_shl_def
      frame_eval)

text \<open>
  C2, amended: every inbound notification is decoded as a control frame, whatever its
  length. With fewer than ten bytes the handler raises a RangeError and dispatches
  nothing. With ten bytes or more the dispatcher is called with byte 0 as the command,
  byte 9 as the marker, and as data the value decoded from the payload: for command 21
  with marker 253 the string of the hexadecimal numerals of bytes 1 to 8, otherwise the
  number \<open>(b1 << 24) + (b2 << 16) + (b3 << 8) + b4\<close> of bytes 1 to 4. No notification
  changes the receive buffer or reaches the receive callback.
\<close>

theorem notification_decoded_and_dispatched:
  "(length v < 10 \<longrightarrow> handleCharacteristicValueChanged v s = Inl RangeError) \<and>
   (10 \<le> length v \<longrightarrow>
      handleCharacteristicValueChanged v s =
        Inr (connectionDataReceive (uint (v ! 0))
               (if uint (v ! 0) = 21 \<and> uint (v ! 9) = 253 then
                  JStr (toString16 (uint (v ! 1)) @ toString16 (uint (v ! 2)) @
                        toString16 (uint (v ! 3)) @ toString16 (uint (v ! 4)) @
                        toString16 (uint (v ! 5)) @ toString16 (uint (v ! 6)) @
                        toString16 (uint (v ! 7)) @ toString16 (uint (v ! 8)))
                else JNum (js_shl (uint (v ! 1)) 24 + js_shl (uint (v ! 2)) 16
                           + js_shl (uint (v ! 3)) 8 + uint (v ! 4)))
               (uint (v ! 9)) s)) \<and>
   (\<forall>s'. handleCharacteristicValueChanged v s = Inr s' \<longrightarrow>
      receiveBuffer s' = receiveBuffer s \<and> received s' = received s)"
proof -
  have short: "length v < 10 \<longrightarrow> handleCharacteristicValueChanged v s = Inl RangeError"
    by (simp add: handleCharacteristicValueChanged_def decodeFrame_short bindE_def)
  have long: "10 \<le> length v \<longrightarrow>
      handleCharacteristicValueChanged v s =
        Inr (connectionDataReceive (uint (v ! 0))
               (if uint (v ! 0) = 21 \<and> uint (v ! 9) = 253 then
                  JStr (toString16 (uint (v ! 1)) @ toString16 (uint (v ! 2)) @
                        toString16 (uint (v ! 3)) @ toString16 (uint (v ! 4)) @
                        toString16 (uint (v ! 5)) @ toString16 (uint (v ! 6)) @
                        toString16 (uint (v ! 7)) @ toString16 (uint (v ! 8)))
                else JNum (js_shl (uint (v ! 1)) 24 + js_shl (uint (v ! 2)) 16
                           + js_shl (uint (v ! 3)) 8 + uint (v ! 4)))
               (uint (v ! 9)) s)"
    by (simp add: handleCharacteristicValueChanged_def decodeFrame_long bindE_def)
  have keep: "receiveBuffer (connectionDataReceive c t h s) = receiveBuffer s \<and>
              received (connectionDataReceive c t h s) = received s" for c t h
    by (simp add: connectionDataReceive_def sendToDevice_def Let_def checkRFIDExists_def
        split: option.splits)
  have same: "\<forall>s'. handleCharacteristicValueChanged v s = Inr s' \<longrightarrow>
      receiveBuffer s' = receiveBuffer s \<and> received s' = received s"
  proof (cases "length v < 10")
    case True
    with short show ?thesis by simp
  next
    case False
    then have "10 \<le> length v" by simp
    with long obtain c t h where
      "handleCharacteristicValueChanged v s = Inr (connectionDataReceive c t h s)"
      by blast
    with keep [of c t h] show ?thesis by auto
  qed
  from short long same show ?thesis
    by (intro conjI)
qed

theorem notification_decoded_and_dispatched_witness:
  "handleCharacteristicValueChanged [0x68, 0x69, 0x0A] connected = Inl RangeError \<and>
   handleCharacteristicValueChanged [31,0,0,1,2,0,0,0,0,253] connected =
     Inr (connectionDataReceive 31 (JNum 258) 253 connected) \<and>
   handleCharacteristicValueChanged [21,0,0,0,1,0,0,0,0,253,10,7] connected =
     Inr (connectionDataReceive 21 (JStr (js ''00010000'')) 253 connected) \<and>
   map_sum id receiveBuffer
     (handleCharacteristicValueChanged [31,0,0,1,2,0,0,0,0,253] connected) = Inr [] \<and>
   map_sum id received
     (handleCharacteristicValueChanged [31,0,0,1,2,0,0,0,0,253] connected) = Inr []"
proof -
  have short: "handleCharacteristicValueChanged [0x68, 0x69, 0x0A] connected = Inl RangeError"
    using notification_decoded_and_dispatched [of "[0x68, 0x69, 0x0A]" connected] by simp
  have rfid: "handleCharacteristicValueChanged [31,0,0,1,2,0,0,0,0,253] connected =
     Inr (connectionDataReceive 31 (JNum 258) 253 connected)"
    using notification_decoded_and_dispatched [of "[31,0,0,1,2,0,0,0,0,253]" connected]
    by (simp add: js_shl_def toInt32_def)
  have hand: "handleCharacteristicValueChanged [21,0,0,0,1,0,0,0,0,253,10,7] connected =
     Inr (connectionDataReceive 21 (JStr (js ''00010000'')) 253 connected)"
    using notification_decoded_and_dispatched [of "[21,0,0,0,1,0,0,0,0,253,10,7]" connected]
    by (simp add: toString16_def hexDigit_def js_def)
  from notification_decoded_and_dispatched [of "[31,0,0,1,2,0,0,0,0,253]" connected] rfid
  have keep: "receiveBuffer (connectionDataReceive 31 (JNum 258) 253 connected) =
                 receiveBuffer connected \<and>
               received (connectionDataReceive 31 (JNum 258) 253 connected) = received connected"
    by blast
  have e: "receiveBuffer connected = []" "received connected = []"
    by (simp_all add: connected_def initial_def)
  from keep e have k2: "map_sum id receiveBuffer
     (handleCharacteristicValueChanged [31,0,0,1,2,0,0,0,0,253] connected) = Inr []"
     "map_sum id received
     (handleCharacteristicValueChanged [31,0,0,1,2,0,0,0,0,253] connected) = Inr []"
    unfolding rfid by simp_all
  from short rfid hand k2 show ?thesis
    by (intro conjI)
qed

subsection \<open>The dispatcher\<close>

text \<open>
  C8: a frame whose marker is not 253 changes nothing. The dispatcher returns at once,
  so the whole object, \<open>deviceId\<close>, \<open>rfIdNumber\<close> and the list of writes included, is
  as before; the same holds for the handler on any notification of ten bytes or more
  whose byte 9 is not 253.
\<close>

theorem other_marker_ignored:
  "(h \<noteq> 253 \<longrightarrow> connectionDataReceive c d h s = s) \<and>
   (10 \<le> length v \<and> v ! 9 \<noteq> 253 \<longrightarrow> handleCharacteristicValueChanged v s = Inr s)"
  by (simp add: connectionDataReceive_def handleCharacteristicValueChanged_def
      decodeFrame_long bindE_def uint_byte_eq)

theorem other_marker_ignored_witness:
  "connectionDataReceive 41 (JNum 0) 254 connected = connected \<and>
   handleCharacteristicValueChanged [41,0,0,0,1,0,0,0,0,254,10] connected = Inr connected"
  using other_marker_ignored [of 254 41 "JNum 0" connected "[41,0,0,0,1,0,0,0,0,254,10]"]
  by simp

text \<open>
  C9: in a terminal with a cached characteristic, a frame with marker 253 and command
  41, 42, 43 or 44 makes the dispatcher write exactly one frame, with the same command
  byte and the big-endian payload 1, 2000, 100 and 1000 respectively, marker 254 and
  terminator 10; no other field of the object changes, so \<open>deviceId\<close> and
  \<open>rfIdNumber\<close> stay.
\<close>

theorem query_commands_reply:
  "characteristic s \<noteq> None \<Longrightarrow>
   connectionDataReceive 41 d 253 s =
     s\<lparr> writes := writes s @ [WriteBytes [41,0,0,0,1,0,0,0,0,254,10]] \<rparr> \<and>
   connectionDataReceive 42 d 253 s =
     s\<lparr> writes := writes s @ [WriteBytes [42,0,0,7,208,0,0,0,0,254,10]] \<rparr> \<and>
   connectionDataReceive 43 d 253 s =
     s\<lparr> writes := writes s @ [WriteBytes [43,0,0,0,100,0,0,0,0,254,10]] \<rparr> \<and>
   connectionDataReceive 44 d 253 s =
     s\<lparr> writes := writes s @ [WriteBytes [44,0,0,3,232,0,0,0,0,254,10]] \<rparr> \<and>
   (7 * 256 + 208 = (2000 :: int) \<and> 3 * 256 + 232 = (1000 :: int))"
  by (simp add: connectionDataReceive_def sendToDevice_cached frame_eval)

theorem query_commands_reply_witness:
  "characteristic connected \<noteq> None \<and>
   connectionDataReceive 42 (JNum 0) 253 connected =
     connected\<lparr> writes := [WriteBytes [42,0,0,7,208,0,0,0,0,254,10]] \<rparr> \<and>
   deviceId (connectionDataReceive 42 (JNum 0) 253 connected) = JNull \<and>
   rfIdNumber (connectionDataReceive 42 (JNum 0) 253 connected) = JNull"
proof -
  have c: "characteristic connected \<noteq> None"
    by (simp add: connected_def)
  show ?thesis
    using c query_commands_reply [OF c, of "JNum 0"] by (simp add: connected_def initial_def)
qed

text \<open>
  C10: a frame with command 31 and marker 253 makes the dispatcher store the decoded
  payload as \<open>rfIdNumber\<close> and write nothing: \<open>checkRFIDExists\<close> is the constant
  \<open>true\<close>, so the reply with payload 0 is never sent. Through the handler the payload
  is the number decoded from bytes 1 to 4.
\<close>

theorem rfid_stored_without_reply:
  "checkRFIDExists \<and>
   connectionDataReceive 31 d 253 s = s\<lparr> rfIdNumber := d \<rparr> \<and>
   (10 \<le> length v \<and> v ! 0 = 31 \<and> v ! 9 = 253 \<longrightarrow>
      handleCharacteristicValueChanged v s =
        Inr (s\<lparr> rfIdNumber := JNum (js_shl (uint (v ! 1)) 24 + js_shl (uint (v ! 2)) 16
                                     + js_shl (uint (v ! 3)) 8 + uint (v ! 4)) \<rparr>))"
  by (simp add: connectionDataReceive_def checkRFIDExists_def
      handleCharacteristicValueChanged_def decodeFrame_long bindE_def)

theorem rfid_stored_without_reply_witness:
  "handleCharacteristicValueChanged [31,0,0,1,2,0,0,0,0,253,10] connected =
     Inr (connected\<lparr> rfIdNumber := JNum 258 \<rparr>)"
  using rfid_stored_without_reply [of "JNum 258" connected "[31,0,0,1,2,0,0,0,0,253,10]"]
  by (simp add: js_shl_def toInt32_def)

subsection \<open>The frame codec\<close>

text \<open>
  The encoder is exact on every number: the bytes are the big-endian bytes of the low 32
  bits of the payload. The mask \<open>0xFF0000FF\<close> of the last byte does no harm, since
  the store into the \<open>Uint8Array\<close> keeps the low eight bits only.
\<close>

lemma take_bit_toInt32: "take_bit 32 (toInt32 x) = take_bit 32 x"
  by (simp add: toInt32_def Let_def take_bit_eq_mod)

lemma bit_toInt32: "n < 32 \<Longrightarrow> bit (toInt32 x) n = bit x n"
  by (metis bit_take_bit_iff take_bit_toInt32)

lemma mask_24: "(0xFF000000 :: int) = push_bit 24 (mask 8)"
  and mask_16: "(0x00FF0000 :: int) = push_bit 16 (mask 8)"
  and mask_8: "(0x0000FF00 :: int) = push_bit 8 (mask 8)"
  and mask_low: "(0xFF0000FF :: int) = push_bit 24 (mask 8) OR mask 8"
  by (simp_all add: push_bit_eq_mult mask_eq_exp_minus_1)

lemma byte_of_field:
  assumes "k + 8 \<le> 32"
  shows "toUint8 (js_sar (js_and x (push_bit k (mask 8))) k) = word_of_int (drop_bit k x)"
proof (rule bit_word_eqI)
  fix n assume "n < LENGTH(8)"
  then have n: "n < 8" by simp
  with assms have "k + n < 32" by simp
  with n assms show "bit (toUint8 (js_sar (js_and x (push_bit k (mask 8))) k)) n
      = bit (word_of_int (drop_bit k x) :: byte) n"
    by (simp add: toUint8_def js_sar_def js_and_def bit_simps bit_toInt32 add.commute)
qed

lemma byte_of_low:
  "toUint8 (js_and x (push_bit 24 (mask 8) OR mask 8)) = word_of_int x"
proof (rule bit_word_eqI)
  fix n assume "n < LENGTH(8)"
  then have n: "n < 8" by simp
  then show "bit (toUint8 (js_and x (push_bit 24 (mask 8) OR mask 8))) n
      = bit (word_of_int x :: byte) n"
    by (simp add: toUint8_def js_and_def bit_simps bit_toInt32)
qed

lemma encodeFrame_bytes:
  "encodeFrame c p =
     [word_of_int c, word_of_int (drop_bit 24 p), word_of_int (drop_bit 16 p),
      word_of_int (drop_bit 8 p), word_of_int p, 0, 0, 0, 0, 254, 10]"
  unfolding encodeFrame_def mask_24 mask_16 mask_8 mask_low
  by (simp add: byte_of_field byte_of_low) (simp add: toUint8_def)


text \<open>
  The decoder reads a payload below \<open>2 ^ 31\<close> back; from \<open>2 ^ 31\<close> on, the shift of
  the first byte by 24 goes through the sign bit and the result is \<open>p - 2 ^ 32\<close>.
\<close>

lemma recompose:
  "push_bit 24 (take_bit 8 (drop_bit 24 p)) + push_bit 16 (take_bit 8 (drop_bit 16 p))
     + push_bit 8 (take_bit 8 (drop_bit 8 p)) + take_bit 8 p = take_bit 32 (p :: int)"
proof -
  have "concat_bit 8 p (concat_bit 8 (drop_bit 8 p) (concat_bit 8 (drop_bit 16 p)
          (take_bit 8 (drop_bit 24 p)))) = take_bit 32 p"
    by (rule bit_eqI) (auto simp: bit_simps)
  then show ?thesis
    by (simp add: concat_bit_eq push_bit_add)
qed

lemma toInt32_small: "0 \<le> x \<Longrightarrow> x < 2 ^ 31 \<Longrightarrow> toInt32 x = x"
  by (simp add: toInt32_def Let_def)

lemma toInt32_high: "2 ^ 31 \<le> x \<Longrightarrow> x < 2 ^ 32 \<Longrightarrow> toInt32 x = x - 2 ^ 32"
  by (simp add: toInt32_def Let_def)

lemma byte_bounds: "0 \<le> take_bit 8 (x :: int)" "take_bit 8 (x :: int) < 256"
  using take_bit_int_less_exp [of 8 x] by simp_all

lemma js_shl_low:
  assumes "k \<le> 16"
  shows "js_shl (take_bit 8 x) k = push_bit k (take_bit 8 x)"
proof -
  have "(2 :: int) ^ k \<le> 2 ^ 16"
    using assms by (intro power_increasing) simp_all
  with byte_bounds [of x] have "take_bit 8 x * 2 ^ k \<le> 256 * 2 ^ 16"
    by (intro mult_mono) simp_all
  then have "push_bit k (take_bit 8 x) < 2 ^ 31"
    by (simp add: push_bit_eq_mult)
  moreover have "0 \<le> push_bit k (take_bit 8 x)"
    by simp
  moreover have "k mod 32 = k"
    using assms by simp
  ultimately show ?thesis
    using byte_bounds [of x] by (simp add: js_shl_def toInt32_small)
qed

lemma js_shl_24:
  "js_shl (take_bit 8 x) 24 = toInt32 (push_bit 24 (take_bit 8 x))"
  using byte_bounds [of x] by (simp add: js_shl_def toInt32_small)

lemma decoded_number:
  assumes "0 \<le> p" "p < 2 ^ 32"
  shows "js_shl (take_bit 8 (drop_bit 24 p)) 24 + js_shl (take_bit 8 (drop_bit 16 p)) 16
           + js_shl (take_bit 8 (drop_bit 8 p)) 8 + take_bit 8 p
         = (if p < 2 ^ 31 then p else p - 2 ^ 32)"
proof -
  let ?h = "push_bit 24 (take_bit 8 (drop_bit 24 p))"
  let ?r = "push_bit 16 (take_bit 8 (drop_bit 16 p)) + push_bit 8 (take_bit 8 (drop_bit 8 p))
            + take_bit 8 p"
  have p: "?h + ?r = p"
    using recompose [of p] assms by (simp add: take_bit_int_eq_self)
  have top: "drop_bit 24 p < 256" "0 \<le> drop_bit 24 p"
    using assms by (simp_all add: drop_bit_eq_div)
  then have t1: "take_bit 8 (drop_bit 24 p) = drop_bit 24 p"
    by (simp add: take_bit_int_eq_self)
  have r: "0 \<le> ?r" "?r < 2 ^ 24"
  proof -
    show "0 \<le> ?r" by simp
    have "?r = take_bit 24 p"
    proof -
      have "concat_bit 8 p (concat_bit 8 (drop_bit 8 p) (take_bit 8 (drop_bit 16 p)))
              = take_bit 24 p"
        by (rule bit_eqI) (auto simp: bit_simps)
      then show ?thesis by (simp add: concat_bit_eq push_bit_add)
    qed
    then show "?r < 2 ^ 24" using take_bit_int_less_exp [of 24 p] by simp
  qed
  have h: "?h = drop_bit 24 p * 2 ^ 24"
    by (simp add: t1 push_bit_eq_mult)
  have sum: "js_shl (take_bit 8 (drop_bit 24 p)) 24 + js_shl (take_bit 8 (drop_bit 16 p)) 16
           + js_shl (take_bit 8 (drop_bit 8 p)) 8 + take_bit 8 p = toInt32 ?h + ?r"
    by (simp add: js_shl_low js_shl_24)
  show ?thesis
  proof (cases "p < 2 ^ 31")
    case True
    with p r have "?h < 2 ^ 31" by linarith
    moreover have "0 \<le> ?h" by simp
    ultimately have "toInt32 ?h = ?h" by (simp add: toInt32_small)
    with sum p True show ?thesis by simp
  next
    case False
    with p r h have "2 ^ 31 - 2 ^ 24 < ?h" by linarith
    with h have "128 \<le> drop_bit 24 p" by simp
    with h have low: "2 ^ 31 \<le> ?h" by simp
    from h top have "?h < 2 ^ 32" by simp
    with low have "toInt32 ?h = ?h - 2 ^ 32" by (simp add: toInt32_high)
    with sum p False show ?thesis by simp
  qed
qed

lemma decode_encode:
  fixes c :: byte
  assumes "0 \<le> p" "p < 2 ^ 32"
  shows "decodeFrame (encodeFrame (uint c) p) =
           Inr (uint c, JNum (if p < 2 ^ 31 then p else p - 2 ^ 32), 254)"
  using decoded_number [OF assms]
  by (simp add: encodeFrame_bytes decodeFrame_long uint_word_of_int_eq)

text \<open>
  C3 at the payload \<open>2 ^ 31\<close>: the encoder gives the bytes \<open>[41,128,0,0,0,0,0,0,0,254,10]\<close>,
  whose first four payload bytes are the big-endian form of \<open>2147483648\<close>; the handler
  decodes command 41 from them, and as payload the negative number \<open>- 2147483648\<close>,
  because \<open>t1 << 24\<close> is a signed 32-bit shift.
\<close>

theorem decode_encode_high_payload:
  "encodeFrame 41 2147483648 = [41,128,0,0,0,0,0,0,0,254,10] \<and>
   decodeFrame (encodeFrame 41 2147483648) = Inr (41, JNum (- 2147483648), 254)"
  by (simp add: decodeFrame_def bindE_def getUint8_def js_shl_def frame_eval)

subsection \<open>The chunk splitter\<close>

text \<open>
  The chunks have between one and \<open>n\<close> code units, and their concatenation is the
  string without its U+2028 and U+2029 code units; a non-empty string that has none of
  them is split into chunks that give it back.
\<close>

lemma takeWhile_prefix_filter:
  "filter P (take n (takeWhile P s)) = take n (takeWhile P s)"
  by (rule filter_True) (auto dest: in_set_takeD set_takeWhileD)

lemma take_takeWhile_split:
  "take n (takeWhile P s) @ drop (length (take n (takeWhile P s))) s = s"
proof -
  define k where "k = length (takeWhile P s)"
  have e: "takeWhile P s = take k s"
    unfolding k_def by (rule takeWhile_eq_take)
  have k: "k \<le> length s"
    unfolding k_def by (rule length_takeWhile_le)
  have "take n (take k s) @ drop (length (take n (take k s))) s = s"
    using k by (simp add: min_def)
  then show ?thesis
    unfolding e [symmetric] .
qed

lemma concat_matchAll:
  "0 < n \<Longrightarrow> concat (matchAll n s) = filter unitMatches s"
proof (induction n s rule: matchAll.induct)
  case (1 n s)
  let ?m = "take n (takeWhile unitMatches s)"
  show ?case
  proof (cases "s = []")
    case True
    then show ?thesis by (simp add: matchAll.simps)
  next
    case False
    note ne = this
    show ?thesis
    proof (cases "?m = []")
      case True
      with ne "1.prems" have "\<not> unitMatches (hd s)"
        by (cases s) (auto split: if_splits)
      with ne have f: "filter unitMatches s = filter unitMatches (tl s)"
        by (cases s) auto
      from True ne "1.prems" "1.IH"(1) have "concat (matchAll n (tl s)) = filter unitMatches (tl s)"
        by simp
      with True ne "1.prems" f show ?thesis
        by (subst matchAll.simps) simp
    next
      case False
      with ne "1.prems" "1.IH"(2)
      have ih: "concat (matchAll n (drop (length ?m) s)) = filter unitMatches (drop (length ?m) s)"
        by simp
      have "filter unitMatches s = filter unitMatches (?m @ drop (length ?m) s)"
        by (simp only: take_takeWhile_split)
      also have "\<dots> = ?m @ filter unitMatches (drop (length ?m) s)"
        by (simp only: filter_append takeWhile_prefix_filter)
      finally have f: "filter unitMatches s = ?m @ filter unitMatches (drop (length ?m) s)" .
      from False ne "1.prems" have "matchAll n s = ?m # matchAll n (drop (length ?m) s)"
        by (subst matchAll.simps) simp
      with ih f show ?thesis by simp
    qed
  qed
qed

lemma matchAll_chunk_length:
  "c \<in> set (matchAll n s) \<Longrightarrow> 1 \<le> length c \<and> length c \<le> n"
proof (induction n s arbitrary: c rule: matchAll.induct)
  case (1 n s)
  let ?m = "take n (takeWhile unitMatches s)"
  show ?case
  proof (cases "n = 0 \<or> s = []")
    case True
    with "1.prems" show ?thesis by (simp add: matchAll.simps)
  next
    case False
    note ne = this
    show ?thesis
    proof (cases "?m = []")
      case True
      with ne "1.prems" have "c \<in> set (matchAll n (tl s))"
        by (subst (asm) matchAll.simps) simp
      from "1.IH"(1) [OF ne True this] show ?thesis .
    next
      case False
      with ne "1.prems" have "c = ?m \<or> c \<in> set (matchAll n (drop (length ?m) s))"
        by (subst (asm) matchAll.simps) auto
      then show ?thesis
      proof
        assume c: "c = ?m"
        have "length ?m \<le> n"
          by simp
        moreover from False have "1 \<le> length ?m"
          by (cases ?m) simp_all
        ultimately show ?thesis
          using c by simp
      next
        assume "c \<in> set (matchAll n (drop (length ?m) s))"
        from "1.IH"(2) [OF ne False this] show ?thesis .
      qed
    qed
  qed
qed

lemma unitMatches_plain: "c \<noteq> 0x2028 \<Longrightarrow> c \<noteq> 0x2029 \<Longrightarrow> unitMatches c"
  unfolding unitMatches_def dotMatches_def by argo

lemma filter_plain:
  assumes "\<forall>c \<in> set s. c \<noteq> 0x2028 \<and> c \<noteq> 0x2029"
  shows "filter unitMatches s = s"
proof (rule filter_True)
  show "\<forall>x \<in> set s. unitMatches x"
    using assms unitMatches_plain by blast
qed

lemma splitByLength_plain:
  assumes "0 < n" "s \<noteq> []" "\<forall>c \<in> set s. c \<noteq> 0x2028 \<and> c \<noteq> 0x2029"
  shows "splitByLength s n = Inr (Some (matchAll n s)) \<and> concat (matchAll n s) = s \<and>
           (\<forall>c \<in> set (matchAll n s). 1 \<le> length c \<and> length c \<le> n)"
proof -
  have c: "concat (matchAll n s) = s"
    using assms(1) filter_plain [OF assms(3)] by (simp only: concat_matchAll)
  have "matchAll n s \<noteq> []"
  proof
    assume "matchAll n s = []"
    then have "concat (matchAll n s) = []" by simp
    with c assms(2) show False by simp
  qed
  then obtain m ms where "matchAll n s = m # ms"
    by (cases "matchAll n s") auto
  with assms(1) have r: "splitByLength s n = Inr (Some (matchAll n s))"
    by (simp add: splitByLength_def)
  have l: "\<forall>c \<in> set (matchAll n s). 1 \<le> length c \<and> length c \<le> n"
    using matchAll_chunk_length by blast
  from r c l show ?thesis
    by (intro conjI)
qed

text \<open>
  C4 at the string of the three code units \<open>a\<close>, U+2028, \<open>b\<close> with length 20: the
  splitter returns the two chunks \<open>a\<close> and \<open>b\<close>; their concatenation has lost the line
  separator. On the empty string it returns \<open>null\<close>.
\<close>

theorem split_drops_line_separator:
  "splitByLength [0x61, 0x2028, 0x62] 20 = Inr (Some [[0x61], [0x62]]) \<and>
   concat [[0x61], [0x62]] \<noteq> [0x61, 0x2028, 0x62 :: jschar] \<and>
   splitByLength [] 20 = Inr None"
  by (simp add: splitByLength_def matchAll.simps unitMatches_def dotMatches_def)

subsection \<open>Connecting\<close>

text \<open>
  With a remembered device, or when the request returns a promise, \<open>connect\<close> returns
  a promise; a rejected request rejects it with the same error, and it is fulfilled only
  with a cached characteristic whose notifications have started. A request that throws
  makes \<open>connect\<close> throw.
\<close>

lemma connect_request_throws:
  "device s = None \<Longrightarrow> bt_requestDevice b = Throw e \<Longrightarrow> connect b s = (Throw TypeError, s)"
  by (simp add: connect_def connectToDevice_def requestBluetoothDevice_def)

lemma connect_request_rejected:
  "device s = None \<Longrightarrow> bt_requestDevice b = Return (Rejected e) \<Longrightarrow>
     connect b s = (Return (Rejected e), s)"
  by (simp add: connect_def connectToDevice_def requestBluetoothDevice_def)

lemma connect_returns_promise:
  assumes "device s \<noteq> None \<or> (\<exists>p. bt_requestDevice b = Return p)"
  shows "\<exists>p s'. connect b s = (Return p, s')"
  using assms
  by (auto simp: connect_def connectToDevice_def requestBluetoothDevice_def
      split: option.splits completion.splits promise.splits prod.splits)

lemma startNotifications_fulfilled:
  "startNotifications b c s = (Fulfilled u, s') \<Longrightarrow>
     \<exists>ch. c = Some ch \<and> bt_startNotifications b ch = Fulfilled () \<and>
          s' = s\<lparr> listening := listening s @ [ch] \<rparr>"
  by (auto simp: startNotifications_def split: option.splits promise.splits)

lemma connectDevice_fulfilled:
  "connectDeviceAndCacheCharacteristic b d s = (Fulfilled c, s') \<Longrightarrow> characteristic s' = c"
  by (auto simp: connectDeviceAndCacheCharacteristic_def
      split: if_splits option.splits promise.splits)

lemma connect_fulfilled_listening:
  assumes "connect b s = (Return (Fulfilled u), s')"
  shows "\<exists>ch. characteristic s' = Some ch \<and> ch \<in> set (listening s')
           \<and> bt_startNotifications b ch = Fulfilled ()"
proof -
  from assms obtain d s1 c s2 where
    cache: "connectDeviceAndCacheCharacteristic b d s1 = (Fulfilled c, s2)"
    and start: "startNotifications b c s2 = (Fulfilled u, s')"
    by (auto simp: connect_def connectToDevice_def
        split: option.splits completion.splits promise.splits prod.splits)
  from startNotifications_fulfilled [OF start] obtain ch where
    ch: "c = Some ch" "bt_startNotifications b ch = Fulfilled ()"
        "s' = s2\<lparr> listening := listening s2 @ [ch] \<rparr>"
    by blast
  from connectDevice_fulfilled [OF cache] ch show ?thesis
    by simp
qed

lemma connect_good: "connect goodBluetooth initial =
   (Return (Fulfilled ()), initial\<lparr> device := Some 7, characteristic := Some 3, listening := [3] \<rparr>)"
  by (simp add: connect_def connectToDevice_def requestBluetoothDevice_def goodBluetooth_def
      initial_def connectDeviceAndCacheCharacteristic_def startNotifications_def)

text \<open>
  C5 in a browser whose \<open>requestDevice\<close> throws, with no device remembered:
  \<open>connect\<close> returns no promise at all. The exception of the request is logged inside
  \<open>_requestBluetoothDevice\<close>, and \<open>connect\<close> itself throws a TypeError.
\<close>

theorem connect_throws_when_request_throws:
  "requestBluetoothDevice noBluetooth initial = (None, initial) \<and>
   connect noBluetooth initial = (Throw TypeError, initial)"
  by (simp add: connect_def connectToDevice_def requestBluetoothDevice_def noBluetooth_def
      initial_def)

subsection \<open>Sending\<close>

text \<open>The falsy values, and the values whose string is empty.\<close>

lemma decimal_nonempty: "decimal n \<noteq> []"
  by (subst decimal.simps) simp

lemma falsy_values:
  "(\<not> truthy x) =
     (x = JUndefined \<or> x = JNull \<or> x = JBool False \<or> x = JNum 0 \<or> x = JNaN \<or> x = JStr [])"
  by (cases x) auto

lemma empty_string_values: "(jsString x = []) = (x = JStr [] \<or> x = JObj [])"
  by (cases x) (auto simp: js_def decimal_nonempty)

text \<open>
  C6, as stated, fails in its only-if half: \<open>send(0)\<close> is rejected with
  \<open>Data must be not empty\<close> and writes nothing, though the string of \<open>0\<close> is \<open>0\<close>, which
  is not empty. What \<open>send\<close> tests is \<open>String(x || '')\<close>.
\<close>

theorem send_zero_counterexample:
  "send (\<lambda>i. True) (\<lambda>i. None) (JNum 0) connected =
     (Return (Rejected DataMustBeNotEmpty), connected) \<and>
   jsString (JNum 0) = js ''0'' \<and> js ''0'' \<noteq> []"
  by (simp add: send_def decimal.simps js_def)

text \<open>
  C6, amended: \<open>send(x)\<close> returns a promise rejected with \<open>Data must be not empty\<close>
  exactly when \<open>x\<close> is falsy (\<open>undefined\<close>, \<open>null\<close>, \<open>false\<close>, \<open>0\<close>, \<open>NaN\<close> or the
  empty string) or the string of \<open>x\<close> is empty; in that case the object is unchanged,
  so nothing was written, whatever the transport would have done. This is so for
  \<open>send('')\<close> and \<open>send(null)\<close>.
\<close>

theorem send_rejects_falsy_or_empty:
  "(fst (send pr oc x s) = Return (Rejected DataMustBeNotEmpty))
     = (jsString x = [] \<or> \<not> truthy x) \<and>
   (jsString x = [] \<or> \<not> truthy x \<longrightarrow>
      send pr oc x s = (Return (Rejected DataMustBeNotEmpty), s)) \<and>
   (\<not> truthy x) =
     (x = JUndefined \<or> x = JNull \<or> x = JBool False \<or> x = JNum 0 \<or> x = JNaN \<or> x = JStr []) \<and>
   (fst (send pr oc x s) = Return (Rejected DataMustBeNotEmpty))
     = (x = JUndefined \<or> x = JNull \<or> x = JBool False \<or> x = JNum 0 \<or> x = JNaN \<or>
        x = JStr [] \<or> x = JObj []) \<and>
   send pr oc (JStr []) s = (Return (Rejected DataMustBeNotEmpty), s) \<and>
   send pr oc JNull s = (Return (Rejected DataMustBeNotEmpty), s)"
proof -
  have empty: "jsString x = [] \<or> \<not> truthy x \<longrightarrow>
      send pr oc x s = (Return (Rejected DataMustBeNotEmpty), s)"
    by (auto simp: send_def)
  have other: "\<not> (jsString x = [] \<or> \<not> truthy x) \<longrightarrow>
      fst (send pr oc x s) \<noteq> Return (Rejected DataMustBeNotEmpty)"
    using writeChunks_not_validation [of pr oc]
    by (auto simp: send_def Let_def split_def split: sum.splits option.splits)
  have lit: "send pr oc (JStr []) s = (Return (Rejected DataMustBeNotEmpty), s)"
       "send pr oc JNull s = (Return (Rejected DataMustBeNotEmpty), s)"
    by (simp_all add: send_def)
  from empty other have iff: "(fst (send pr oc x s) = Return (Rejected DataMustBeNotEmpty))
     = (jsString x = [] \<or> \<not> truthy x)"
    by (cases "jsString x = [] \<or> \<not> truthy x") simp_all
  have listed: "(fst (send pr oc x s) = Return (Rejected DataMustBeNotEmpty))
     = (x = JUndefined \<or> x = JNull \<or> x = JBool False \<or> x = JNum 0 \<or> x = JNaN \<or>
        x = JStr [] \<or> x = JObj [])"
    unfolding iff empty_string_values falsy_values by blast
  from iff empty falsy_values [of x] listed lit show ?thesis
    by (intro conjI)
qed

theorem send_rejects_falsy_or_empty_witness:
  "send (\<lambda>i. True) (\<lambda>i. None) (JNum 0) connected =
     (Return (Rejected DataMustBeNotEmpty), connected) \<and>
   send (\<lambda>i. True) (\<lambda>i. None) (JObj []) connected =
     (Return (Rejected DataMustBeNotEmpty), connected) \<and>
   fst (send (\<lambda>i. True) (\<lambda>i. None) (JStr (js ''AB'')) connected)
     \<noteq> Return (Rejected DataMustBeNotEmpty)"
  using send_rejects_falsy_or_empty [of "\<lambda>i. True" "\<lambda>i. None" "JNum 0" connected]
        send_rejects_falsy_or_empty [of "\<lambda>i. True" "\<lambda>i. None" "JObj []" connected]
        send_rejects_falsy_or_empty [of "\<lambda>i. True" "\<lambda>i. None" "JStr (js ''AB'')" connected]
  by (simp add: js_def)

text \<open>
  C7, as stated, fails in its last clause: when the write of the first chunk is rejected
  by the transport and the characteristic is gone before the second chunk, the promise
  is rejected with the transport's error, not with \<open>Device has been disconnected\<close>.
  Only the first chunk was written.
\<close>

theorem send_write_chain_counterexample:
  "send (\<lambda>i. False) (\<lambda>i. if i = 0 then Some 5 else None) (JStr (js ''abcd'')) narrow =
     (Return (Rejected (TransportError 5)), narrow\<lparr> writes := [WriteText (js ''ab'')] \<rparr>) \<and>
   Rejected (TransportError 5) \<noteq> (Rejected DeviceDisconnected :: unit promise)"
  by (simp add: send_def narrow_def connected_def initial_def js_def splitByLength_def
      matchAll.simps unitMatches_def dotMatches_def)

text \<open>
  C7, amended: in a terminal with a cached characteristic, for a non-empty message whose
  separator-appended text splits into the chunks \<open>cs\<close>, \<open>send\<close> returns a promise and
  the writes it adds are a prefix \<open>take k cs\<close> of the chunks, in their order, the first
  chunk always among them. Chunk \<open>j + 1\<close> is written only if the write of chunk \<open>j\<close>
  was fulfilled and the characteristic was still set. When every write is fulfilled
  and the characteristic stays, all chunks are written and the promise is fulfilled.
  If the characteristic is gone when the turn of chunk \<open>j > 0\<close> would come, chunk \<open>j\<close>
  and the later ones are not written and the promise is rejected: with
  \<open>Device has been disconnected\<close> after exactly \<open>j\<close> writes when every earlier write
  was fulfilled, with the error of a rejected earlier write otherwise. A write rejected
  by the transport rejects the promise with that error and is the last one.
\<close>

theorem send_write_chain:
  assumes "characteristic s \<noteq> None"
    and "jsString (if truthy x then x else JStr []) \<noteq> []"
    and "splitByLength (jsString (if truthy x then x else JStr []) @ [sendSeparator s])
           (maxCharacteristicValueLength s) = Inr (Some cs)"
  shows "\<exists>p k. send pr oc x s = (Return p, s\<lparr> writes := writes s @ map WriteText (take k cs) \<rparr>)
           \<and> 0 < k \<and> k \<le> length cs
           \<and> (\<forall>j. Suc j < k \<longrightarrow> oc j = None \<and> pr (Suc j))
           \<and> ((\<forall>m<length cs. oc m = None \<and> (0 < m \<longrightarrow> pr m))
                 \<longrightarrow> p = Fulfilled () \<and> k = length cs)
           \<and> (\<forall>j. 0 < j \<and> j < length cs \<and> \<not> pr j
                 \<longrightarrow> k \<le> j \<and> (p = Rejected DeviceDisconnected \<or>
                       (\<exists>i<j. \<exists>e. oc i = Some e \<and> p = Rejected (TransportError e))))
           \<and> (\<forall>j. 0 < j \<and> j < length cs \<and> \<not> pr j \<and> (\<forall>m<j. oc m = None)
                    \<and> (\<forall>m. 0 < m \<and> m < j \<longrightarrow> pr m)
                 \<longrightarrow> p = Rejected DeviceDisconnected \<and> k = j)
           \<and> (\<forall>j e. j < length cs \<and> oc j = Some e \<and> (\<forall>m<j. oc m = None)
                    \<and> (\<forall>m. 0 < m \<and> m \<le> j \<longrightarrow> pr m)
                 \<longrightarrow> p = Rejected (TransportError e) \<and> k = Suc j)"
proof -
  let ?r = "writeChunks pr oc cs"
  let ?k = "length (snd ?r)"
  have run: "send pr oc x s =
      (Return (fst ?r), s\<lparr> writes := writes s @ map WriteText (take ?k cs) \<rparr>)"
    using send_cached [OF assms] writeChunks_prefix [of pr oc cs] by simp
  have ne: "cs \<noteq> []"
    using assms(3) by (rule splitByLength_nonempty)
  have pos: "0 < ?k"
    using writeChunks_first [OF ne, of pr oc] by simp
  have len: "?k \<le> length cs"
    by (rule writeChunks_length)
  have order: "\<forall>j. Suc j < ?k \<longrightarrow> oc j = None \<and> pr (Suc j)"
    using writeChunks_order by blast
  have all: "(\<forall>m<length cs. oc m = None \<and> (0 < m \<longrightarrow> pr m))
                 \<longrightarrow> fst ?r = Fulfilled () \<and> ?k = length cs"
  proof
    assume "\<forall>m<length cs. oc m = None \<and> (0 < m \<longrightarrow> pr m)"
    then have "?r = (Fulfilled (), cs)" by (rule writeChunks_success)
    then show "fst ?r = Fulfilled () \<and> ?k = length cs" by simp
  qed
  have gone: "\<forall>j. 0 < j \<and> j < length cs \<and> \<not> pr j
                 \<longrightarrow> ?k \<le> j \<and> (fst ?r = Rejected DeviceDisconnected \<or>
                       (\<exists>i<j. \<exists>e. oc i = Some e \<and> fst ?r = Rejected (TransportError e)))"
    using writeChunks_gone by blast
  have pending: "\<forall>j. 0 < j \<and> j < length cs \<and> \<not> pr j \<and> (\<forall>m<j. oc m = None)
                    \<and> (\<forall>m. 0 < m \<and> m < j \<longrightarrow> pr m)
                 \<longrightarrow> fst ?r = Rejected DeviceDisconnected \<and> ?k = j"
  proof (intro allI impI)
    fix j
    assume h: "0 < j \<and> j < length cs \<and> \<not> pr j \<and> (\<forall>m<j. oc m = None)
                    \<and> (\<forall>m. 0 < m \<and> m < j \<longrightarrow> pr m)"
    then have "?r = (Rejected DeviceDisconnected, take j cs)"
      by (intro writeChunks_disconnected) auto
    with h show "fst ?r = Rejected DeviceDisconnected \<and> ?k = j"
      by simp
  qed
  have failed: "\<forall>j e. j < length cs \<and> oc j = Some e \<and> (\<forall>m<j. oc m = None)
                    \<and> (\<forall>m. 0 < m \<and> m \<le> j \<longrightarrow> pr m)
                 \<longrightarrow> fst ?r = Rejected (TransportError e) \<and> ?k = Suc j"
  proof (intro allI impI)
    fix j e
    assume h: "j < length cs \<and> oc j = Some e \<and> (\<forall>m<j. oc m = None)
                    \<and> (\<forall>m. 0 < m \<and> m \<le> j \<longrightarrow> pr m)"
    then have "?r = (Rejected (TransportError e), take (Suc j) cs)"
      by (intro writeChunks_failed) auto
    with h show "fst ?r = Rejected (TransportError e) \<and> ?k = Suc j"
      by simp
  qed
  from run pos len order all gone pending failed show ?thesis
    by blast
qed

theorem send_write_chain_witness:
  "send (\<lambda>i. True) (\<lambda>i. None) (JStr (js ''abcd'')) narrow =
     (Return (Fulfilled ()),
      narrow\<lparr> writes := [WriteText (js ''ab''), WriteText (js ''cd''), WriteText [10]] \<rparr>) \<and>
   send (\<lambda>i. True) (\<lambda>i. None) (JStr (js ''a'')) narrow =
     (Return (Fulfilled ()), narrow\<lparr> writes := [WriteText [97, 10]] \<rparr>) \<and>
   send (\<lambda>i. i < 2) (\<lambda>i. None) (JStr (js ''abcd'')) narrow =
     (Return (Rejected DeviceDisconnected),
      narrow\<lparr> writes := [WriteText (js ''ab''), WriteText (js ''cd'')] \<rparr>)"
proof -
  have c: "characteristic narrow \<noteq> None"
    by (simp add: narrow_def connected_def)
  have w: "writes narrow = []"
    by (simp add: narrow_def connected_def initial_def)
  have d: "jsString (if truthy (JStr (js ''abcd'')) then JStr (js ''abcd'') else JStr []) \<noteq> []"
    by (simp add: js_def)
  have d1: "jsString (if truthy (JStr (js ''a'')) then JStr (js ''a'') else JStr []) \<noteq> []"
    by (simp add: js_def)
  from send_write_chain [OF c d narrow_split, of "\<lambda>i. True" "\<lambda>i. None"]
  obtain p k where
    run: "send (\<lambda>i. True) (\<lambda>i. None) (JStr (js ''abcd'')) narrow =
            (Return p, narrow\<lparr> writes := writes narrow @
               map WriteText (take k [js ''ab'', js ''cd'', [10]]) \<rparr>)"
    and all: "p = Fulfilled () \<and> k = length [js ''ab'', js ''cd'', [10 :: jschar]]"
    by auto
  from run all have first: "send (\<lambda>i. True) (\<lambda>i. None) (JStr (js ''abcd'')) narrow =
     (Return (Fulfilled ()),
      narrow\<lparr> writes := [WriteText (js ''ab''), WriteText (js ''cd''), WriteText [10]] \<rparr>)"
    by (simp add: w)
  from send_write_chain [OF c d1 narrow_single, of "\<lambda>i. True" "\<lambda>i. None"]
  obtain p1 k1 where
    run1: "send (\<lambda>i. True) (\<lambda>i. None) (JStr (js ''a'')) narrow =
            (Return p1, narrow\<lparr> writes := writes narrow @
               map WriteText (take k1 [[97, 10]]) \<rparr>)"
    and all1: "p1 = Fulfilled () \<and> k1 = length [[97, 10 :: jschar]]"
    by auto
  from run1 all1 have second: "send (\<lambda>i. True) (\<lambda>i. None) (JStr (js ''a'')) narrow =
     (Return (Fulfilled ()), narrow\<lparr> writes := [WriteText [97, 10]] \<rparr>)"
    by (simp add: w)
  from send_write_chain [OF c d narrow_split, of "\<lambda>i. i < 2" "\<lambda>i. None"]
  have "\<exists>p2 k2. send (\<lambda>i. i < 2) (\<lambda>i. None) (JStr (js ''abcd'')) narrow =
            (Return p2, narrow\<lparr> writes := writes narrow @
               map WriteText (take k2 [js ''ab'', js ''cd'', [10]]) \<rparr>) \<and>
          (\<forall>j. 0 < j \<and> j < length [js ''ab'', js ''cd'', [10 :: jschar]] \<and> \<not> j < 2
                    \<and> (\<forall>m<j. (None :: nat option) = None) \<and> (\<forall>m. 0 < m \<and> m < j \<longrightarrow> m < 2)
                 \<longrightarrow> p2 = Rejected DeviceDisconnected \<and> k2 = j)"
    by (elim exE conjE) (intro exI conjI, assumption+)
  then obtain p2 k2 where
    run2: "send (\<lambda>i. i < 2) (\<lambda>i. None) (JStr (js ''abcd'')) narrow =
            (Return p2, narrow\<lparr> writes := writes narrow @
               map WriteText (take k2 [js ''ab'', js ''cd'', [10]]) \<rparr>)"
    and gone: "\<forall>j. 0 < j \<and> j < length [js ''ab'', js ''cd'', [10 :: jschar]] \<and> \<not> j < 2
                    \<and> (\<forall>m<j. (None :: nat option) = None) \<and> (\<forall>m. 0 < m \<and> m < j \<longrightarrow> m < 2)
                 \<longrightarrow> p2 = Rejected DeviceDisconnected \<and> k2 = j"
    by (elim exE conjE)
  from gone [rule_format, of 2] have "p2 = Rejected DeviceDisconnected \<and> k2 = 2"
    by simp
  with run2 have third: "send (\<lambda>i. i < 2) (\<lambda>i. None) (JStr (js ''abcd'')) narrow =
     (Return (Rejected DeviceDisconnected),
      narrow\<lparr> writes := [WriteText (js ''ab''), WriteText (js ''cd'')] \<rparr>)"
    by (simp add: w)
  from first second third show ?thesis
    by (intro conjI)
qed

end
